theory Spec2Isabelle
  imports Main "HOL-Library.Word" "HOL-Library.Sublist"
begin

section \<open>The SBS-1 line decoder and the batch forwarder of adsb-go-dataset\<close>

text \<open>
  The development embeds \<^verbatim>\<open>src/main.go\<close>. A Go \<^verbatim>\<open>string\<close> is a byte sequence and is
  modelled as \<^typ>\<open>string\<close> (a list of 8-bit characters). Go's \<^verbatim>\<open>int\<close> is taken as the
  64-bit signed integer of the usual build targets, \<^verbatim>\<open>int32\<close> as \<^typ>\<open>32 word\<close>.
  The functions of Go's standard library that the program calls are written out from
  their documented behaviour, under the names the source uses.
\<close>

subsection \<open>Standard library: \<^verbatim>\<open>strings.TrimSpace\<close> and \<^verbatim>\<open>strings.Split\<close>\<close>

text \<open>
  \<^verbatim>\<open>strings.TrimSpace\<close> removes leading and trailing white space as \<^verbatim>\<open>unicode.IsSpace\<close>
  defines it: tab, line feed, vertical tab, form feed, carriage return, space, U+0085,
  U+00A0, U+1680, U+2000 to U+200A, U+2028, U+2029, U+202F, U+205F and U+3000. On the
  bytes of a string these are the UTF-8 encodings listed below; a byte sequence that is
  not valid UTF-8 decodes to U+FFFD, which is no space, so nothing else is trimmed.
\<close>

definition spaceEncodings :: "string list" where
  "spaceEncodings =
     [[CHR 0x09], [CHR 0x0A], [CHR 0x0B], [CHR 0x0C], [CHR 0x0D], [CHR 0x20],
      [CHR 0xC2, CHR 0x85], [CHR 0xC2, CHR 0xA0],
      [CHR 0xE1, CHR 0x9A, CHR 0x80],
      [CHR 0xE2, CHR 0x80, CHR 0x80], [CHR 0xE2, CHR 0x80, CHR 0x81],
      [CHR 0xE2, CHR 0x80, CHR 0x82], [CHR 0xE2, CHR 0x80, CHR 0x83],
      [CHR 0xE2, CHR 0x80, CHR 0x84], [CHR 0xE2, CHR 0x80, CHR 0x85],
      [CHR 0xE2, CHR 0x80, CHR 0x86], [CHR 0xE2, CHR 0x80, CHR 0x87],
      [CHR 0xE2, CHR 0x80, CHR 0x88], [CHR 0xE2, CHR 0x80, CHR 0x89],
      [CHR 0xE2, CHR 0x80, CHR 0x8A],
      [CHR 0xE2, CHR 0x80, CHR 0xA8], [CHR 0xE2, CHR 0x80, CHR 0xA9],
      [CHR 0xE2, CHR 0x80, CHR 0xAF], [CHR 0xE2, CHR 0x81, CHR 0x9F],
      [CHR 0xE3, CHR 0x80, CHR 0x80]]"

text \<open>The width in bytes of the white-space rune a string starts with (ends with); 0 if none.\<close>

definition leadingSpace :: "string \<Rightarrow> nat" where
  "leadingSpace s = (case find (\<lambda>p. prefix p s) spaceEncodings of
                       None \<Rightarrow> 0 | Some p \<Rightarrow> length p)"

definition trailingSpace :: "string \<Rightarrow> nat" where
  "trailingSpace s = (case find (\<lambda>p. suffix p s) spaceEncodings of
                        None \<Rightarrow> 0 | Some p \<Rightarrow> length p)"

function TrimLeftSpace :: "string \<Rightarrow> string" where
  "TrimLeftSpace s =
     (if leadingSpace s = 0 \<or> s = [] then s else TrimLeftSpace (drop (leadingSpace s) s))"
  by pat_completeness auto
termination
  by (relation "measure length") auto

function TrimRightSpace :: "string \<Rightarrow> string" where
  "TrimRightSpace s =
     (if trailingSpace s = 0 \<or> s = [] then s
      else TrimRightSpace (take (length s - trailingSpace s) s))"
  by pat_completeness auto
termination
  by (relation "measure length") auto

definition TrimSpace :: "string \<Rightarrow> string" where
  "TrimSpace s = TrimRightSpace (TrimLeftSpace s)"

text \<open>
  \<^verbatim>\<open>strings.Split(s, sep)\<close> for a one-byte separator (the program passes \<^verbatim>\<open>","\<close>): the
  substrings between the separators, in order; always at least one.
\<close>

function Split :: "string \<Rightarrow> char \<Rightarrow> string list" where
  "Split s sep =
     (case dropWhile (\<lambda>c. c \<noteq> sep) s of
        [] \<Rightarrow> [s]
      | _ # rest \<Rightarrow> takeWhile (\<lambda>c. c \<noteq> sep) s # Split rest sep)"
  by pat_completeness auto
termination
proof (relation "measure (\<lambda>(s, sep). length s)")
  show "wf (measure (\<lambda>(s, sep). length s))" by simp
next
  fix s :: string and sep x rest
  assume "dropWhile (\<lambda>c. c \<noteq> sep) s = x # rest"
  then have "length (x # rest) \<le> length s"
    using length_dropWhile_le [of "\<lambda>c. c \<noteq> sep" s] by simp
  then show "((rest, sep), (s, sep)) \<in> measure (\<lambda>(s, sep). length s)" by simp
qed

subsection \<open>Standard library: \<^verbatim>\<open>strconv.Atoi\<close> and \<^verbatim>\<open>strconv.FormatInt\<close>\<close>

definition isDigit :: "char \<Rightarrow> bool" where
  "isDigit c = (48 \<le> (of_char c :: int) \<and> (of_char c :: int) \<le> 57)"

definition digitVal :: "char \<Rightarrow> int" where
  "digitVal c = of_char c - 48"

text \<open>The loop \<^verbatim>\<open>n = n*10 + int(ch)\<close> over decimal digits.\<close>

fun leadingInt :: "int \<Rightarrow> string \<Rightarrow> int" where
  "leadingInt n [] = n"
| "leadingInt n (c # cs) = leadingInt (n * 10 + digitVal c) cs"

text \<open>
  \<^verbatim>\<open>strconv.Atoi\<close>: an optional sign, then one or more decimal digits and nothing else
  (a syntax error otherwise); a value outside the 64-bit signed range is a range error.
  \<open>None\<close> stands for a non-nil \<^verbatim>\<open>err\<close>.
\<close>

definition Atoi :: "string \<Rightarrow> int option" where
  "Atoi s =
     (let neg = (case s of c # _ \<Rightarrow> c = CHR ''-'' | [] \<Rightarrow> False);
          ds = (case s of c # cs \<Rightarrow> if c = CHR ''-'' \<or> c = CHR ''+'' then cs else s | [] \<Rightarrow> s)
      in if ds = [] \<or> \<not> list_all isDigit ds then None
         else let v = leadingInt 0 ds; n = (if neg then - v else v)
              in if n < - (2 ^ 63) \<or> 2 ^ 63 - 1 < n then None else Some n)"

text \<open>The decimal digits of a number that is not negative.\<close>

function formatNat :: "int \<Rightarrow> string" where
  "formatNat n =
     (if n < 10 then [char_of (48 + n)] else formatNat (n div 10) @ [char_of (48 + n mod 10)])"
  by pat_completeness auto
termination
  by (relation "measure nat") auto

text \<open>\<^verbatim>\<open>strconv.FormatInt(i, 10)\<close>.\<close>

definition FormatInt :: "int \<Rightarrow> string" where
  "FormatInt i = (if i < 0 then CHR ''-'' # formatNat (- i) else formatNat i)"

subsection \<open>Standard library: \<^verbatim>\<open>time.Parse\<close> with the layout \<^verbatim>\<open>2006/01/02 15:04:05\<close>\<close>

text \<open>
  A \<^verbatim>\<open>time.Time\<close> that \<^verbatim>\<open>time.Parse\<close> returns is in UTC; it is represented by its
  civil fields.
\<close>

record Time =
  t_year :: int
  t_month :: int
  t_day :: int
  t_hour :: int
  t_minute :: int
  t_second :: int
  t_nanosecond :: int

text \<open>\<^verbatim>\<open>getnum\<close>: one or two leading digits; exactly two when \<open>fixed\<close>.\<close>

definition getnum :: "string \<Rightarrow> bool \<Rightarrow> (int \<times> string) option" where
  "getnum s fixed =
     (case s of
        [] \<Rightarrow> None
      | c0 # r0 \<Rightarrow>
          if \<not> isDigit c0 then None
          else (case r0 of
                  [] \<Rightarrow> if fixed then None else Some (digitVal c0, r0)
                | c1 # r1 \<Rightarrow>
                    if isDigit c1 then Some (digitVal c0 * 10 + digitVal c1, r1)
                    else if fixed then None else Some (digitVal c0, r0)))"

definition cutspace :: "string \<Rightarrow> string" where
  "cutspace s = dropWhile (\<lambda>c. c = CHR '' '') s"

text \<open>
  \<^verbatim>\<open>skip\<close>: the literal text between two layout elements. A space of the layout
  stands for any run of spaces of the value (also none, at the end of the value).
\<close>

function skip :: "string \<Rightarrow> string \<Rightarrow> string option" where
  "skip v [] = Some v"
| "skip v (p # ps) =
     (if p = CHR '' '' then
        (case v of
           c # _ \<Rightarrow> if c \<noteq> CHR '' '' then None else skip (cutspace v) (cutspace ps)
         | [] \<Rightarrow> skip (cutspace v) (cutspace ps))
      else (case v of [] \<Rightarrow> None | c # cs \<Rightarrow> if c = p then skip cs ps else None))"
  by pat_completeness auto
termination
proof (relation "measure (\<lambda>(v, p). length p)")
  have cut: "length (cutspace ps) < Suc (length ps)" for ps
    unfolding cutspace_def using length_dropWhile_le [of "\<lambda>c. c = CHR '' ''" ps] by simp
  show "wf (measure (\<lambda>(v, p). length p))" by simp
  show "((cutspace v, cutspace ps), (v, p # ps)) \<in> measure (\<lambda>(v, p). length p)"
    for v p ps using cut [of ps] by simp
  show "((cutspace v, cutspace ps), (v, p # ps)) \<in> measure (\<lambda>(v, p). length p)"
    for v p ps using cut [of ps] by simp
  show "((cs, ps), (v, p # ps)) \<in> measure (\<lambda>(v, p). length p)"
    for v p and ps cs :: string by simp
qed

definition isLeap :: "int \<Rightarrow> bool" where
  "isLeap y = (y mod 4 = 0 \<and> (y mod 100 \<noteq> 0 \<or> y mod 400 = 0))"

definition daysIn :: "int \<Rightarrow> int \<Rightarrow> int" where
  "daysIn m y =
     (if m = 2 then (if isLeap y then 29 else 28)
      else if m = 4 \<or> m = 6 \<or> m = 9 \<or> m = 11 then 30 else 31)"

text \<open>
  The four-digit year: \<^verbatim>\<open>len(value) < 4 || !isDigit(value, 0)\<close> is an error, and so is
  a byte among the four that is no digit.
\<close>

definition parseYear :: "string \<Rightarrow> (int \<times> string) option" where
  "parseYear v =
     (if length v < 4 then None
      else if list_all isDigit (take 4 v) then Some (leadingInt 0 (take 4 v), drop 4 v)
      else None)"

text \<open>
  A fractional second right after the seconds is accepted although the layout has none
  (package \<^verbatim>\<open>time\<close> documents it: when parsing, the input may contain a fractional second
  field immediately after the seconds field, even if the layout does not signify its
  presence): a period or comma and at least one digit. Digits beyond the ninth are
  skipped. Returns the nanoseconds and the rest of the value.
\<close>

definition parseFraction :: "string \<Rightarrow> int \<times> string" where
  "parseFraction v =
     (case v of
        c # d # _ \<Rightarrow>
          if (c = CHR ''.'' \<or> c = CHR '','') \<and> isDigit d then
            (let n = 1 + length (takeWhile isDigit (tl v)); nbytes = min n 10
             in (leadingInt 0 (take (nbytes - 1) (tl v)) * 10 ^ (10 - nbytes), drop n v))
          else (0, v)
      | _ \<Rightarrow> (0, v))"

text \<open>
  \<^verbatim>\<open>time.Parse("2006/01/02 15:04:05", value)\<close>: the year of four digits, the month and
  the day of two, the hour of one or two, the minute and the second of two, each checked
  against its range, then the day against the length of the month; text left over is an
  error. \<open>None\<close> stands for a non-nil \<^verbatim>\<open>err\<close>.
\<close>

definition time_Parse :: "string \<Rightarrow> Time option" where
  "time_Parse v0 =
     (case parseYear v0 of None \<Rightarrow> None | Some (year, v1) \<Rightarrow>
     (case skip v1 ''/'' of None \<Rightarrow> None | Some v2 \<Rightarrow>
     (case getnum v2 True of None \<Rightarrow> None | Some (month, v3) \<Rightarrow>
       if month \<le> 0 \<or> 12 < month then None else
     (case skip v3 ''/'' of None \<Rightarrow> None | Some v4 \<Rightarrow>
     (case getnum v4 True of None \<Rightarrow> None | Some (day, v5) \<Rightarrow>
     (case skip v5 '' '' of None \<Rightarrow> None | Some v6 \<Rightarrow>
     (case getnum v6 False of None \<Rightarrow> None | Some (hour, v7) \<Rightarrow>
       if 24 \<le> hour then None else
     (case skip v7 '':'' of None \<Rightarrow> None | Some v8 \<Rightarrow>
     (case getnum v8 True of None \<Rightarrow> None | Some (minute, v9) \<Rightarrow>
       if 60 \<le> minute then None else
     (case skip v9 '':'' of None \<Rightarrow> None | Some v10 \<Rightarrow>
     (case getnum v10 True of None \<Rightarrow> None | Some (sec, v11) \<Rightarrow>
       if 60 \<le> sec then None else
     (case parseFraction v11 of (nsec, v12) \<Rightarrow>
       if v12 \<noteq> [] then None
       else if day < 1 \<or> daysIn month year < day then None
       else Some \<lparr>t_year = year, t_month = month, t_day = day, t_hour = hour,
                   t_minute = minute, t_second = sec, t_nanosecond = nsec\<rparr>))))))))))))"

subsection \<open>Floating point\<close>

text \<open>
  A \<^verbatim>\<open>float32\<close> is carried as its IEEE 754 binary32 bit pattern and a \<^verbatim>\<open>float64\<close> as its
  binary64 bit pattern; positive zero is the pattern 0. The arithmetic of
  \<^verbatim>\<open>strconv.ParseFloat\<close> and of the conversion \<^verbatim>\<open>float32(f)\<close> is not modelled: both are
  parameters. \<open>ParseFloat s bitSize = None\<close> stands for a non-nil \<^verbatim>\<open>err\<close>.
\<close>

type_synonym float32 = "32 word"
type_synonym float64 = "64 word"

record floats =
  ParseFloat :: "string \<Rightarrow> nat \<Rightarrow> float64 option"
  float32_of :: "float64 \<Rightarrow> float32"

subsection \<open>The decoded record\<close>

record SBS1Message =
  Timestamp :: string
  MessageType :: string
  TransmissionType :: "32 word"
  SessionID :: string
  AircraftID :: string
  Icao24 :: string
  FlightID :: string
  GeneratedDate :: "Time option"
  LoggedDate :: "Time option"
  Callsign :: string
  Altitude :: "32 word"
  GroundSpeed :: float32
  Track :: float32
  Lat :: float32
  Lon :: float32
  VerticalRate :: "32 word"
  Squawk :: "32 word"
  Alert :: bool
  Emergency :: bool
  Spi :: bool
  OnGround :: bool

text \<open>
  \<^verbatim>\<open>NewSBS1Message\<close>: every field at the zero value of its type except the time stamp.
  \<open>now\<close> is what \<^verbatim>\<open>time.Now().UnixNano()\<close> returns at the call.
\<close>

definition NewSBS1Message :: "64 word \<Rightarrow> SBS1Message" where
  "NewSBS1Message now =
     \<lparr>Timestamp = FormatInt (sint now), MessageType = [], TransmissionType = 0,
      SessionID = [], AircraftID = [], Icao24 = [], FlightID = [],
      GeneratedDate = None, LoggedDate = None, Callsign = [], Altitude = 0,
      GroundSpeed = 0, Track = 0, Lat = 0, Lon = 0, VerticalRate = 0, Squawk = 0,
      Alert = False, Emergency = False, Spi = False, OnGround = False\<rparr>"

subsection \<open>The field parsers\<close>

definition parseInt :: "string \<Rightarrow> 32 word" where
  "parseInt s = (case Atoi s of Some i \<Rightarrow> word_of_int i | None \<Rightarrow> 0)"

definition parseFloat :: "floats \<Rightarrow> string \<Rightarrow> float32" where
  "parseFloat fl s = (case ParseFloat fl s 32 of Some f \<Rightarrow> float32_of fl f | None \<Rightarrow> 0)"

definition parseBool :: "string \<Rightarrow> bool" where
  "parseBool s = (case Atoi s of Some b \<Rightarrow> b \<noteq> 0 | None \<Rightarrow> False)"

definition parseDateTime :: "string \<Rightarrow> string \<Rightarrow> Time option" where
  "parseDateTime date timeStr = time_Parse (date @ '' '' @ timeStr)"

subsection \<open>The line decoder\<close>

definition Parse :: "floats \<Rightarrow> 64 word \<Rightarrow> string \<Rightarrow> SBS1Message \<times> bool" where
  "Parse fl now msg =
     (let sbs1 = NewSBS1Message now;
          parts = Split (TrimSpace msg) (CHR '','')
      in if length parts < 22 \<or> parts ! 0 \<noteq> ''MSG'' then (sbs1, False)
         else
           (sbs1\<lparr>MessageType := ''MSG'',
                 TransmissionType := parseInt (parts ! 1),
                 SessionID := parts ! 2,
                 AircraftID := parts ! 3,
                 Icao24 := parts ! 4,
                 FlightID := parts ! 5,
                 GeneratedDate := parseDateTime (parts ! 6) (parts ! 7),
                 LoggedDate := parseDateTime (parts ! 8) (parts ! 9),
                 Callsign := TrimSpace (parts ! 10),
                 Altitude := parseInt (parts ! 11),
                 GroundSpeed := parseFloat fl (parts ! 12),
                 Track := parseFloat fl (parts ! 13),
                 Lat := parseFloat fl (parts ! 14),
                 Lon := parseFloat fl (parts ! 15),
                 VerticalRate := parseInt (parts ! 16),
                 Squawk := parseInt (parts ! 17),
                 Alert := parseBool (parts ! 18),
                 Emergency := parseBool (parts ! 19),
                 Spi := parseBool (parts ! 20),
                 OnGround := parseBool (parts ! 21)\<rparr>, True))"

subsection \<open>The outbound payload\<close>

record attrs =
  a_message :: SBS1Message
  a_source :: string
  a_collector :: string
  a_parser :: string

record event =
  e_parser :: string
  e_ts :: string
  e_sev :: int
  e_attrs :: attrs

record payload =
  p_session :: string
  p_sessionInfo :: "(string \<times> string) list"
  p_events :: "event list"
  p_threads :: "string list"

text \<open>
  What lies outside the program at a call of \<^verbatim>\<open>sendToService\<close>, the \<open>k\<close>-th of the run
  (counted from 0): the identifier \<^verbatim>\<open>uuid.New()\<close> returns, and whether marshalling and
  posting the payload ends in an error (\<open>None\<close> is the \<^verbatim>\<open>nil\<close> error).
\<close>

record world =
  newUUID :: "nat \<Rightarrow> string"
  deliver :: "nat \<Rightarrow> payload \<Rightarrow> string option"

definition eventOf :: "SBS1Message \<Rightarrow> event" where
  "eventOf message =
     \<lparr>e_parser = ''adsb'', e_ts = Timestamp message, e_sev = 3,
      e_attrs = \<lparr>a_message = message, a_source = ''dump1090-fa'',
                 a_collector = ''imichaelmoore/adsb-go-dataset'', a_parser = ''adsb''\<rparr>\<rparr>"

text \<open>\<^verbatim>\<open>sendToService\<close>: the payload it builds and the error it returns.\<close>

definition sendToService :: "world \<Rightarrow> nat \<Rightarrow> SBS1Message list \<Rightarrow> payload \<times> string option" where
  "sendToService W k messages =
     (let events = map eventOf messages;
          pl = \<lparr>p_session = newUUID W k, p_sessionInfo = [], p_events = events,
                p_threads = []\<rparr>
      in (pl, deliver W k pl))"

subsection \<open>The batch forwarder: the read loop of \<^verbatim>\<open>runApp\<close>\<close>

text \<open>
  The state of the loop: the slice \<^verbatim>\<open>messages\<close>, and the calls of \<^verbatim>\<open>sendToService\<close>
  made so far, each with the payload built and the error returned.
\<close>

record forwarder =
  messages :: "SBS1Message list"
  sends :: "(payload \<times> string option) list"

text \<open>
  The body of the loop once \<^verbatim>\<open>Parse\<close> has accepted the line: append, and when the
  length has reached \<^verbatim>\<open>BATCH_SIZE\<close> send and clear the slice, whatever the call returned
  (an error is only logged).
\<close>

definition append_flush :: "world \<Rightarrow> int \<Rightarrow> forwarder \<Rightarrow> SBS1Message \<Rightarrow> forwarder" where
  "append_flush W BATCH_SIZE st parsed =
     (let st1 = st\<lparr>messages := messages st @ [parsed]\<rparr>
      in if BATCH_SIZE \<le> int (length (messages st1)) then
           (let st2 = st1\<lparr>sends := sends st1 @
                                [sendToService W (length (sends st1)) (messages st1)]\<rparr>
            in st2\<lparr>messages := []\<rparr>)
         else st1)"

text \<open>One turn of the loop on a line the scanner returned, with the clock read by \<^verbatim>\<open>Parse\<close>.\<close>

definition offer :: "floats \<Rightarrow> world \<Rightarrow> int \<Rightarrow> forwarder \<Rightarrow> 64 word \<times> string \<Rightarrow> forwarder" where
  "offer fl W BATCH_SIZE st ln =
     (case Parse fl (fst ln) (snd ln) of
        (parsed, ok) \<Rightarrow> if ok then append_flush W BATCH_SIZE st parsed else st)"

fun readLoop :: "floats \<Rightarrow> world \<Rightarrow> int \<Rightarrow> forwarder \<Rightarrow> (64 word \<times> string) list \<Rightarrow> forwarder" where
  "readLoop fl W BATCH_SIZE st [] = st"
| "readLoop fl W BATCH_SIZE st (ln # lns) =
     readLoop fl W BATCH_SIZE (offer fl W BATCH_SIZE st ln) lns"

text \<open>After the loop: what is left is sent; the slice is not touched again.\<close>

definition sendRemaining :: "world \<Rightarrow> forwarder \<Rightarrow> forwarder" where
  "sendRemaining W st =
     (if length (messages st) > 0 then
        st\<lparr>sends := sends st @ [sendToService W (length (sends st)) (messages st)]\<rparr>
      else st)"

datatype fatal = DialFailed | MakeslicePanic | OutOfMemory

definition initial :: forwarder where
  "initial = \<lparr>messages = [], sends = []\<rparr>"

text \<open>
  \<^verbatim>\<open>make([]SBS1Message, 0, cap)\<close>. The runtime panics (\<^verbatim>\<open>makeslice: cap out of range\<close>) when
  the capacity is negative or the slice would exceed the largest allocation, \<open>2 ^ 48\<close>
  bytes with 64-bit addresses; an \<^verbatim>\<open>SBS1Message\<close> takes 168 bytes there (seven strings
  of 16, two pointers of 8, eight numbers of 4 with 4 bytes of padding after the first,
  four booleans). Below that the allocation still ends the program when the machine has
  not the memory: \<open>memLimit\<close> is the largest capacity it has memory for, a parameter.
  \<open>None\<close> is a slice made.
\<close>

definition makeslice :: "int \<Rightarrow> int \<Rightarrow> fatal option" where
  "makeslice memLimit cap =
     (if cap < 0 \<or> 2 ^ 48 < 168 * cap then Some MakeslicePanic
      else if memLimit < cap then Some OutOfMemory
      else None)"

text \<open>
  \<^verbatim>\<open>runApp\<close>. \<open>conn\<close> is \<open>None\<close> when \<^verbatim>\<open>net.Dial\<close> fails (\<^verbatim>\<open>log.Fatal\<close>), otherwise the
  lines the scanner returns until the stream ends, each with the clock reading of its
  \<^verbatim>\<open>Parse\<close>. The slice is made before any line is read. The result is the state at the
  \<^verbatim>\<open>return nil\<close>.
\<close>

definition runApp ::
  "floats \<Rightarrow> world \<Rightarrow> int \<Rightarrow> int \<Rightarrow> (64 word \<times> string) list option \<Rightarrow> fatal + forwarder"
  where
  "runApp fl W memLimit BATCH_SIZE conn =
     (case conn of
        None \<Rightarrow> Inl DialFailed
      | Some lns \<Rightarrow>
          (case makeslice memLimit BATCH_SIZE of
             Some e \<Rightarrow> Inl e
           | None \<Rightarrow> Inr (sendRemaining W (readLoop fl W BATCH_SIZE initial lns))))"

text \<open>The records of the accepted lines, in arrival order.\<close>

definition accepted :: "floats \<Rightarrow> (64 word \<times> string) list \<Rightarrow> SBS1Message list" where
  "accepted fl lns =
     map fst (filter snd (map (\<lambda>ln. Parse fl (fst ln) (snd ln)) lns))"

text \<open>The events of each payload sent so far, in the order of the calls.\<close>

definition shipped :: "forwarder \<Rightarrow> event list list" where
  "shipped st = map (\<lambda>c. p_events (fst c)) (sends st)"

text \<open>The records those events carry as their \<^verbatim>\<open>message\<close>, payload by payload.\<close>

definition carried :: "forwarder \<Rightarrow> SBS1Message list list" where
  "carried st = map (map (\<lambda>e. a_message (e_attrs e))) (shipped st)"

subsection \<open>The narrowing of the specification\<close>




subsection \<open>The pattern of the specification\<close>




subsection \<open>Fixed inputs for the instances\<close>

text \<open>
  A floating-point library that knows two texts: \<^verbatim>\<open>0\<close>, and \<^verbatim>\<open>450.5\<close> with its binary64
  and binary32 bit patterns. A sink that accepts every payload and one that refuses
  every payload.
\<close>

definition floats0 :: floats where
  "floats0 =
     \<lparr>ParseFloat = (\<lambda>s bitSize. if s = ''0'' then Some 0
                                 else if s = ''450.5'' then Some 0x407C280000000000
                                 else None),
      float32_of = (\<lambda>f. if f = 0x407C280000000000 then 0x43E14000 else 0)\<rparr>"

definition worldOk :: world where
  "worldOk = \<lparr>newUUID = (\<lambda>k. ''session''), deliver = (\<lambda>k pl. None)\<rparr>"

definition worldDown :: world where
  "worldDown = \<lparr>newUUID = (\<lambda>k. ''session''), deliver = (\<lambda>k pl. Some ''connection refused'')\<rparr>"

definition sampleLine :: string where
  "sampleLine = ''MSG,3,1,1,A1B2C3,1,2023/05/01,12:00:00,garbage,12:00:00, UAL123 ,-64,450.5,x,0,0,,4294968496,1,0,yes,-1''"

text \<open>A machine with memory for a slice of a million records.\<close>

definition sampleMemLimit :: int where
  "sampleMemLimit = 1000000"

text \<open>Six lines as the scanner returns them, with clock readings; the second is no message.\<close>

definition sampleLines :: "(64 word \<times> string) list" where
  "sampleLines =
     [(0, sampleLine), (1, ''junk''), (2, sampleLine), (3, sampleLine), (4, sampleLine),
      (5, sampleLine)]"

declare TrimLeftSpace.simps [simp del] TrimRightSpace.simps [simp del] Split.simps [simp del]
  formatNat.simps [simp del]

section \<open>Properties\<close>

subsection \<open>Evaluations used by the instances\<close>

lemma Split_not_Nil: "Split s sep \<noteq> []"
  by (subst Split.simps) (simp split: list.split)

lemma sampleLine_parts:
  "Split (TrimSpace sampleLine) (CHR '','') =
     [''MSG'', ''3'', ''1'', ''1'', ''A1B2C3'', ''1'', ''2023/05/01'', ''12:00:00'',
      ''garbage'', ''12:00:00'', '' UAL123 '', ''-64'', ''450.5'', ''x'', ''0'', ''0'',
      [], ''4294968496'', ''1'', ''0'', ''yes'', ''-1'']"
  by code_simp

lemma sample_values:
  "parseInt ''3'' = 3" "parseInt [] = 0" "parseInt ''-64'' = - 64"
  "parseInt ''4294968496'' = 1200"
  "parseBool ''1'' = True" "parseBool ''0'' = False" "parseBool ''yes'' = False"
  "parseBool ''-1'' = True"
  "parseFloat floats0 ''0'' = 0" "parseFloat floats0 ''x'' = 0"
  "parseFloat floats0 ''450.5'' = 0x43E14000"
  "TrimSpace '' UAL123 '' = ''UAL123''"
  "FormatInt 0 = ''0''"
  by code_simp+

lemma Atoi_non_numeric:
  assumes "c \<in> set s" "\<not> isDigit c" "c \<noteq> CHR ''-''" "c \<noteq> CHR ''+''"
  shows "Atoi s = None"
proof (cases s)
  case Nil
  with assms show ?thesis by simp
next
  case (Cons a as)
  show ?thesis
  proof (cases "a = CHR ''-'' \<or> a = CHR ''+''")
    case True
    with assms Cons have "c \<in> set as" by auto
    with assms have "\<not> list_all isDigit as" by (auto simp: list_all_iff)
    with True Cons show ?thesis by (auto simp: Atoi_def Let_def)
  next
    case False
    from assms have "\<not> list_all isDigit s" by (auto simp: list_all_iff)
    with False Cons show ?thesis by (auto simp: Atoi_def Let_def)
  qed
qed

lemma date_examples:
  "parseDateTime ''2023/05/01'' ''12:00:00'' =
     Some \<lparr>t_year = 2023, t_month = 5, t_day = 1, t_hour = 12, t_minute = 0,
           t_second = 0, t_nanosecond = 0\<rparr>"
  "parseDateTime ''garbage'' ''12:00:00'' = None"
  "parseDateTime ''2023/05/01'' ''12:00:00.250'' =
     Some \<lparr>t_year = 2023, t_month = 5, t_day = 1, t_hour = 12, t_minute = 0,
           t_second = 0, t_nanosecond = 250000000\<rparr>"
  "parseDateTime ''2023/05/01'' ''7:05:09'' =
     Some \<lparr>t_year = 2023, t_month = 5, t_day = 1, t_hour = 7, t_minute = 5,
           t_second = 9, t_nanosecond = 0\<rparr>"
  "parseDateTime ''2023/05/01 '' '' 12:00:00'' =
     Some \<lparr>t_year = 2023, t_month = 5, t_day = 1, t_hour = 12, t_minute = 0,
           t_second = 0, t_nanosecond = 0\<rparr>"
  by code_simp+

lemma Parse_accepts:
  "snd (Parse fl now msg) \<longleftrightarrow>
     22 \<le> length (Split (TrimSpace msg) (CHR '','')) \<and>
     Split (TrimSpace msg) (CHR '','') ! 0 = ''MSG''"
  by (auto simp add: Parse_def Let_def)

lemma sample_accepted: "snd (Parse fl now sampleLine)"
  unfolding Parse_accepts sampleLine_parts by simp

lemma junk_rejected: "\<not> snd (Parse fl now ''junk'')"
proof -
  have "Split (TrimSpace ''junk'') (CHR '','') = [''junk'']" by code_simp
  then show ?thesis unfolding Parse_accepts by simp
qed

lemma accepted_Cons:
  "accepted fl (ln # lns) =
     (if snd (Parse fl (fst ln) (snd ln)) then fst (Parse fl (fst ln) (snd ln)) # accepted fl lns
      else accepted fl lns)"
  by (simp add: accepted_def)

lemma accepted_Nil: "accepted fl [] = []"
  by (simp add: accepted_def)

lemma sample_accepted_lines:
  "accepted fl (take (Suc 0) sampleLines) = [fst (Parse fl 0 sampleLine)]"
  "accepted fl (take 3 sampleLines) = [fst (Parse fl 0 sampleLine), fst (Parse fl 2 sampleLine)]"
  "accepted fl sampleLines =
     [fst (Parse fl 0 sampleLine), fst (Parse fl 2 sampleLine), fst (Parse fl 3 sampleLine),
      fst (Parse fl 4 sampleLine), fst (Parse fl 5 sampleLine)]"
  by (simp_all add: sampleLines_def accepted_Cons accepted_Nil sample_accepted junk_rejected)

subsection \<open>Texts of the form of the pattern\<close>



















subsection \<open>The line decoder\<close>

text \<open>
  Claim C1. \<^verbatim>\<open>Parse\<close> rejects a line exactly when the trimmed line, split at the
  commas, has fewer than 22 fields or a first field other than \<^verbatim>\<open>MSG\<close>. Every other
  line is accepted, also one of more than 22 fields; nothing else is checked.
  (\<^verbatim>\<open>Split\<close> never returns the empty list, so the first field exists.)
\<close>

theorem Parse_rejects_iff:
  "snd (Parse fl now msg) = False \<longleftrightarrow>
     (length (Split (TrimSpace msg) (CHR '','')) < 22 \<or>
      Split (TrimSpace msg) (CHR '','') ! 0 \<noteq> ''MSG'')"
  by (simp add: Parse_def Let_def)

theorem Parse_rejects_iff_witness:
  "length (Split (TrimSpace (sampleLine @ '',extra'')) (CHR '','')) = 23 \<and>
   Split (TrimSpace (sampleLine @ '',extra'')) (CHR '','') ! 0 = ''MSG'' \<and>
   snd (Parse floats0 0 (sampleLine @ '',extra'')) = True \<and>
   length (Split (TrimSpace ''MSG,3,1,1,A1B2C3'') (CHR '','')) = 5 \<and>
   snd (Parse floats0 0 ''MSG,3,1,1,A1B2C3'') = False"
proof -
  have s: "length (Split (TrimSpace ''MSG,3,1,1,A1B2C3'') (CHR '','')) = 5"
    by code_simp
  have n: "length (Split (TrimSpace (sampleLine @ '',extra'')) (CHR '','')) = 23"
    by code_simp
  have h: "Split (TrimSpace (sampleLine @ '',extra'')) (CHR '','') ! 0 = ''MSG''"
    by code_simp
  show ?thesis
    using Parse_rejects_iff [of floats0 0 "sampleLine @ '',extra''"]
      Parse_rejects_iff [of floats0 0 "''MSG,3,1,1,A1B2C3''"] n h s by simp
qed

text \<open>
  Claim C2. For an accepted line the record is built from the fields by position:
  field 1 is the transmission type, fields 2 to 5 are the session, aircraft, ICAO and
  flight identifiers as they stand, fields 6 and 7 give the generated date, 8 and 9 the
  logged date, field 10 trimmed is the call sign, fields 11 to 17 are altitude, ground
  speed, track, latitude, longitude, vertical rate and squawk, fields 18 to 21 the four
  flags; the kind is \<^verbatim>\<open>MSG\<close> and the time stamp is the clock reading in decimal.
\<close>

theorem Parse_fields:
  assumes "parts = Split (TrimSpace msg) (CHR '','')"
    and "22 \<le> length parts" and "parts ! 0 = ''MSG''"
  shows "Parse fl now msg =
    (\<lparr>Timestamp = FormatInt (sint now), MessageType = ''MSG'',
      TransmissionType = parseInt (parts ! 1),
      SessionID = parts ! 2, AircraftID = parts ! 3, Icao24 = parts ! 4,
      FlightID = parts ! 5,
      GeneratedDate = parseDateTime (parts ! 6) (parts ! 7),
      LoggedDate = parseDateTime (parts ! 8) (parts ! 9),
      Callsign = TrimSpace (parts ! 10),
      Altitude = parseInt (parts ! 11),
      GroundSpeed = parseFloat fl (parts ! 12),
      Track = parseFloat fl (parts ! 13),
      Lat = parseFloat fl (parts ! 14),
      Lon = parseFloat fl (parts ! 15),
      VerticalRate = parseInt (parts ! 16),
      Squawk = parseInt (parts ! 17),
      Alert = parseBool (parts ! 18),
      Emergency = parseBool (parts ! 19),
      Spi = parseBool (parts ! 20),
      OnGround = parseBool (parts ! 21)\<rparr>, True)"
  using assms by (simp add: Parse_def NewSBS1Message_def Let_def)

theorem Parse_fields_witness:
  "22 \<le> length (Split (TrimSpace sampleLine) (CHR '','')) \<and>
   Split (TrimSpace sampleLine) (CHR '','') ! 0 = ''MSG'' \<and>
   Parse floats0 0 sampleLine =
    (\<lparr>Timestamp = ''0'', MessageType = ''MSG'', TransmissionType = 3,
      SessionID = ''1'', AircraftID = ''1'', Icao24 = ''A1B2C3'', FlightID = ''1'',
      GeneratedDate = Some \<lparr>t_year = 2023, t_month = 5, t_day = 1, t_hour = 12,
                             t_minute = 0, t_second = 0, t_nanosecond = 0\<rparr>,
      LoggedDate = None, Callsign = ''UAL123'', Altitude = - 64,
      GroundSpeed = 0x43E14000, Track = 0, Lat = 0, Lon = 0, VerticalRate = 0,
      Squawk = 1200, Alert = True, Emergency = False, Spi = False, OnGround = True\<rparr>,
     True)"
  using Parse_fields [OF refl, of sampleLine floats0 0]
  unfolding sampleLine_parts by (simp add: sample_values date_examples)

text \<open>
  Claim C3. On an accepted line a numeric or boolean field whose text does not parse
  takes the default of its type (0, 0.0 as the zero bit pattern, false), and the line
  stays accepted whatever the texts are. A flag is true when \<^verbatim>\<open>strconv.Atoi\<close> parses its
  text to a number other than 0, false for the text \<^verbatim>\<open>0\<close>, and false for every text
  \<^verbatim>\<open>Atoi\<close> refuses, in particular for one with a character that is neither a digit nor
  a sign.
\<close>

theorem parse_failure_defaults:
  assumes "parts = Split (TrimSpace msg) (CHR '','')"
    and "22 \<le> length parts" and "parts ! 0 = ''MSG''"
  shows "snd (Parse fl now msg) \<and>
    [TransmissionType (fst (Parse fl now msg)), Altitude (fst (Parse fl now msg)),
     VerticalRate (fst (Parse fl now msg)), Squawk (fst (Parse fl now msg))] =
      map parseInt [parts ! 1, parts ! 11, parts ! 16, parts ! 17] \<and>
    [GroundSpeed (fst (Parse fl now msg)), Track (fst (Parse fl now msg)),
     Lat (fst (Parse fl now msg)), Lon (fst (Parse fl now msg))] =
      map (parseFloat fl) [parts ! 12, parts ! 13, parts ! 14, parts ! 15] \<and>
    [Alert (fst (Parse fl now msg)), Emergency (fst (Parse fl now msg)),
     Spi (fst (Parse fl now msg)), OnGround (fst (Parse fl now msg))] =
      map parseBool [parts ! 18, parts ! 19, parts ! 20, parts ! 21] \<and>
    (Atoi s = None \<longrightarrow> parseInt s = 0 \<and> parseBool s = False) \<and>
    (ParseFloat fl s 32 = None \<longrightarrow> parseFloat fl s = 0) \<and>
    (Atoi s = Some i \<and> i \<noteq> 0 \<longrightarrow> parseBool s = True) \<and>
    parseBool ''1'' = True \<and> parseBool ''0'' = False \<and>
    ((\<exists>c \<in> set s. \<not> isDigit c \<and> c \<noteq> CHR ''-'' \<and> c \<noteq> CHR ''+'') \<longrightarrow>
       parseBool s = False)"
proof -
  have "parseBool ''1'' = True" "parseBool ''0'' = False" by code_simp+
  moreover have "(\<exists>c \<in> set s. \<not> isDigit c \<and> c \<noteq> CHR ''-'' \<and> c \<noteq> CHR ''+'') \<longrightarrow>
       parseBool s = False"
    using Atoi_non_numeric [of _ s] by (auto simp: parseBool_def)
  ultimately show ?thesis
    using assms
    by (simp add: Parse_def NewSBS1Message_def Let_def parseInt_def parseBool_def
        parseFloat_def)
qed

theorem parse_failure_defaults_witness:
  "22 \<le> length (Split (TrimSpace sampleLine) (CHR '','')) \<and>
   Split (TrimSpace sampleLine) (CHR '','') ! 0 = ''MSG'' \<and>
   snd (Parse floats0 0 sampleLine) \<and>
   Atoi [] = None \<and> VerticalRate (fst (Parse floats0 0 sampleLine)) = 0 \<and>
   ParseFloat floats0 ''x'' 32 = None \<and> Track (fst (Parse floats0 0 sampleLine)) = 0 \<and>
   Atoi ''yes'' = None \<and> Spi (fst (Parse floats0 0 sampleLine)) = False \<and>
   Atoi ''-1'' = Some (- 1) \<and> OnGround (fst (Parse floats0 0 sampleLine)) = True \<and>
   Alert (fst (Parse floats0 0 sampleLine)) = True \<and>
   Emergency (fst (Parse floats0 0 sampleLine)) = False"
proof -
  have a: "Atoi [] = None" "Atoi ''yes'' = None" "Atoi ''-1'' = Some (- 1)"
    "ParseFloat floats0 ''x'' 32 = None"
    by code_simp+
  show ?thesis
    using parse_failure_defaults [OF refl, of sampleLine floats0 0 "''yes''" "1"]
      parse_failure_defaults [OF refl, of sampleLine floats0 0 "''-1''" "- 1"]
      parse_failure_defaults [OF refl, of sampleLine floats0 0 "''x''" "1"]
      parse_failure_defaults [OF refl, of sampleLine floats0 0 "[]" "1"]
    unfolding sampleLine_parts by (simp add: a)
qed











text \<open>
  Claim C10. The record returned with a rejected line is the fresh record: only the
  time stamp is set, the kind is the empty string and every other field is the zero
  value of its type. A record has the kind \<^verbatim>\<open>MSG\<close> exactly when its line was accepted.
\<close>

theorem rejected_record_blank:
  assumes "\<not> snd (Parse fl now msg)"
  shows "fst (Parse fl now msg) =
      \<lparr>Timestamp = FormatInt (sint now), MessageType = [], TransmissionType = 0,
       SessionID = [], AircraftID = [], Icao24 = [], FlightID = [],
       GeneratedDate = None, LoggedDate = None, Callsign = [], Altitude = 0,
       GroundSpeed = 0, Track = 0, Lat = 0, Lon = 0, VerticalRate = 0, Squawk = 0,
       Alert = False, Emergency = False, Spi = False, OnGround = False\<rparr> \<and>
    MessageType (fst (Parse fl now msg)) \<noteq> ''MSG'' \<and>
    (snd (Parse fl now' msg') \<longleftrightarrow> MessageType (fst (Parse fl now' msg')) = ''MSG'')"
  using assms
  by (simp add: Parse_def NewSBS1Message_def Let_def split: if_splits)

theorem rejected_record_blank_witness:
  "\<not> snd (Parse floats0 5 ''MSG,3,1,1,A1B2C3'') \<and>
   fst (Parse floats0 5 ''MSG,3,1,1,A1B2C3'') =
      \<lparr>Timestamp = ''5'', MessageType = [], TransmissionType = 0,
       SessionID = [], AircraftID = [], Icao24 = [], FlightID = [],
       GeneratedDate = None, LoggedDate = None, Callsign = [], Altitude = 0,
       GroundSpeed = 0, Track = 0, Lat = 0, Lon = 0, VerticalRate = 0, Squawk = 0,
       Alert = False, Emergency = False, Spi = False, OnGround = False\<rparr>"
proof -
  have r: "\<not> snd (Parse floats0 5 ''MSG,3,1,1,A1B2C3'')" by code_simp
  have f: "FormatInt 5 = ''5''" by code_simp
  show ?thesis
    using rejected_record_blank [OF r, of 0 "[]"] r by (simp add: f)
qed

subsection \<open>The read loop\<close>

text \<open>
  The loop sees the rejected lines not at all: it is the fold of the loop body over the
  accepted records.
\<close>

lemma readLoop_append:
  "readLoop fl W B st (xs @ ys) = readLoop fl W B (readLoop fl W B st xs) ys"
  by (induction xs arbitrary: st) simp_all

lemma readLoop_accepted:
  "readLoop fl W B st lns = foldl (append_flush W B) st (accepted fl lns)"
proof (induction lns arbitrary: st)
  case Nil
  show ?case by (simp add: accepted_def)
next
  case (Cons ln lns)
  obtain parsed ok where p: "Parse fl (fst ln) (snd ln) = (parsed, ok)"
    by (cases "Parse fl (fst ln) (snd ln)")
  show ?case
    using Cons [of "offer fl W B st ln"] p
    by (cases ok) (simp_all add: offer_def accepted_def)
qed

lemma under_threshold:
  "int (length (messages st) + length rs) < B \<Longrightarrow>
     foldl (append_flush W B) st rs = st\<lparr>messages := messages st @ rs\<rparr>"
proof (induction rs arbitrary: st)
  case Nil
  show ?case by simp
next
  case (Cons r rs)
  have step: "append_flush W B st r = st\<lparr>messages := messages st @ [r]\<rparr>"
    using Cons.prems by (simp add: append_flush_def Let_def)
  show ?case
    using Cons.IH [of "st\<lparr>messages := messages st @ [r]\<rparr>"] Cons.prems
    by (simp add: step)
qed

lemma threshold_reached:
  assumes "rs \<noteq> []" and "int (length (messages st) + length rs) = B"
  shows "foldl (append_flush W B) st rs =
           st\<lparr>messages := [],
              sends := sends st @ [sendToService W (length (sends st)) (messages st @ rs)]\<rparr>"
proof -
  from assms(1) have rs: "rs = butlast rs @ [last rs]" by simp
  have "int (length (messages st) + length (butlast rs)) < B"
    using assms by (cases rs) auto
  then have b: "foldl (append_flush W B) st (butlast rs) =
      st\<lparr>messages := messages st @ butlast rs\<rparr>"
    by (rule under_threshold)
  have "foldl (append_flush W B) st rs =
      append_flush W B (foldl (append_flush W B) st (butlast rs)) (last rs)"
    by (subst rs) (simp only: foldl_append foldl.simps)
  also have "\<dots> = st\<lparr>messages := [],
              sends := sends st @ [sendToService W (length (sends st))
                                    ((messages st @ butlast rs) @ [last rs])]\<rparr>"
    using assms(2) rs
    by (simp add: b append_flush_def Let_def)
  finally show ?thesis using rs by simp
qed

lemma shipped_simps:
  "shipped (st\<lparr>messages := ms\<rparr>) = shipped st"
  "shipped (st\<lparr>sends := sends st @ [sendToService W k ms]\<rparr>) = shipped st @ [map eventOf ms]"
  "shipped initial = []"
  by (simp_all add: shipped_def sendToService_def Let_def initial_def)

lemma sendRemaining_empty: "messages st = [] \<Longrightarrow> sendRemaining W st = st"
  by (simp add: sendRemaining_def)

lemma offer_bounded:
  assumes "0 \<le> B" and "int (length (messages st)) \<le> B"
  shows "int (length (messages (offer fl W B st ln))) \<le> B"
proof -
  obtain parsed ok where p: "Parse fl (fst ln) (snd ln) = (parsed, ok)"
    by (cases "Parse fl (fst ln) (snd ln)")
  show ?thesis
    using assms p by (cases ok) (simp_all add: offer_def append_flush_def Let_def)
qed

lemma readLoop_bounded:
  "0 \<le> B \<Longrightarrow> int (length (messages st)) \<le> B \<Longrightarrow>
     int (length (messages (readLoop fl W B st lns))) \<le> B"
  by (induction lns arbitrary: st) (simp_all add: offer_bounded)

lemma shipped_sendRemaining:
  "messages st \<noteq> [] \<Longrightarrow>
     shipped (sendRemaining W st) = shipped st @ [map eventOf (messages st)]"
  by (simp add: sendRemaining_def shipped_def sendToService_def Let_def)

lemma runApp_returns:
  "makeslice memLimit B = None \<Longrightarrow>
     runApp fl W memLimit B (Some lns) = Inr (sendRemaining W (readLoop fl W B initial lns))"
  by (simp add: runApp_def)

lemma runApp_fatal:
  "isl (runApp fl W memLimit B conn) \<longleftrightarrow> conn = None \<or> makeslice memLimit B \<noteq> None"
  by (cases conn) (auto simp add: runApp_def split: option.splits)

lemma makeslice_too_large: "2 ^ 48 < 168 * B \<Longrightarrow> makeslice memLimit B = Some MakeslicePanic"
  by (simp add: makeslice_def)

lemma runApp_too_large:
  "2 ^ 48 < 168 * B \<Longrightarrow> runApp fl W memLimit B (Some lns) = Inl MakeslicePanic"
  by (simp add: runApp_def makeslice_too_large)

lemma runApp_huge:
  "runApp fl W memLimit 4611686018427387904 (Some lns) = Inl MakeslicePanic"
  by (rule runApp_too_large) simp

lemma sample_makeslice:
  "makeslice sampleMemLimit 1 = None" "makeslice sampleMemLimit 2 = None"
  by (simp_all add: makeslice_def sampleMemLimit_def)

lemma messages_of_events:
  "map (\<lambda>e. a_message (e_attrs e)) (map eventOf rs) = rs"
  "map ((\<lambda>e. a_message (e_attrs e)) \<circ> eventOf) rs = rs"
  by (induction rs) (simp_all add: eventOf_def)

lemma e_ts_eventOf: "e_ts (eventOf r) = Timestamp r"
  by (simp add: eventOf_def)

lemma stamps_of_events:
  "map e_ts (map eventOf rs) = map Timestamp rs"
  "map (e_ts \<circ> eventOf) rs = map Timestamp rs"
  by (induction rs) (simp_all add: eventOf_def)

lemma carried_simps:
  "carried (st\<lparr>messages := ms\<rparr>) = carried st"
  "carried (st\<lparr>sends := sends st @ [sendToService W k ms]\<rparr>) = carried st @ [ms]"
  "carried initial = []"
  by (simp_all add: carried_def shipped_def sendToService_def Let_def initial_def
      messages_of_events)

lemma carried_sendRemaining:
  "concat (carried (sendRemaining W st)) = concat (carried st) @ messages st"
  by (simp add: sendRemaining_def carried_simps)

lemma carried_append_flush:
  "concat (carried (append_flush W B st r)) @ messages (append_flush W B st r) =
     concat (carried st) @ messages st @ [r]"
  by (simp add: append_flush_def Let_def carried_simps)

lemma carried_fold:
  "concat (carried (foldl (append_flush W B) st rs)) @
     messages (foldl (append_flush W B) st rs) =
   concat (carried st) @ messages st @ rs"
proof (induction rs arbitrary: st)
  case Nil
  show ?case by simp
next
  case (Cons r rs)
  show ?case
    using Cons [of "append_flush W B st r"] carried_append_flush [of W B st r]
    by simp
qed

lemma take_take_drop: "take n xs @ take n (drop n xs) @ drop (2 * n) xs = xs"
proof -
  have "drop (2 * n) xs = drop n (drop n xs)" by (simp add: mult_2)
  moreover have "take n (drop n xs) @ drop n (drop n xs) = drop n xs"
    by (rule append_take_drop_id)
  ultimately have "take n xs @ take n (drop n xs) @ drop (2 * n) xs = take n xs @ drop n xs"
    by (simp only:)
  then show ?thesis by (simp only: append_take_drop_id)
qed

lemma Timestamp_Parse: "Timestamp (fst (Parse fl now msg)) = FormatInt (sint now)"
  by (simp add: Parse_def NewSBS1Message_def Let_def)

lemma sample_stamps:
  "FormatInt 0 = ''0''" "FormatInt 2 = ''2''" "FormatInt 3 = ''3''" "FormatInt 4 = ''4''"
  "FormatInt 5 = ''5''"
  by code_simp+

lemma two_batches_and_rest:
  assumes "0 < k" and "int k < B" and "int (length recs) = 2 * B + int k"
  shows "foldl (append_flush W B) initial recs =
     \<lparr>messages = drop (2 * nat B) recs,
      sends = [sendToService W 0 (take (nat B) recs),
               sendToService W 1 (take (nat B) (drop (nat B) recs))]\<rparr>"
proof -
  define r1 where "r1 = take (nat B) recs"
  define r2 where "r2 = take (nat B) (drop (nat B) recs)"
  define r3 where "r3 = drop (2 * nat B) recs"
  have len: "length recs = 2 * nat B + k" using assms by linarith
  have l1: "length r1 = nat B" and l2: "length r2 = nat B" and l3: "length r3 = k"
    using len by (simp_all add: r1_def r2_def r3_def)
  have "drop (nat B) (drop (nat B) recs) = r3"
    by (simp add: r3_def mult_2)
  then have split: "recs = r1 @ r2 @ r3"
    unfolding r1_def r2_def by (metis append_take_drop_id)
  have B: "0 < nat B" using assms by linarith
  have ne1: "r1 \<noteq> []" and ne2: "r2 \<noteq> []" using l1 l2 B by auto
  have s1: "foldl (append_flush W B) initial r1 =
      \<lparr>messages = [], sends = [sendToService W 0 r1]\<rparr>"
    using threshold_reached [OF ne1, of initial B W] l1 B by (simp add: initial_def)
  have s2: "foldl (append_flush W B) \<lparr>messages = [], sends = [sendToService W 0 r1]\<rparr> r2 =
      \<lparr>messages = [], sends = [sendToService W 0 r1, sendToService W 1 r2]\<rparr>"
    using threshold_reached [OF ne2, of "\<lparr>messages = [], sends = [sendToService W 0 r1]\<rparr>" B W]
      l2 B by simp
  have s3: "foldl (append_flush W B)
      \<lparr>messages = [], sends = [sendToService W 0 r1, sendToService W 1 r2]\<rparr> r3 =
      \<lparr>messages = r3, sends = [sendToService W 0 r1, sendToService W 1 r2]\<rparr>"
    using under_threshold
      [of "\<lparr>messages = [], sends = [sendToService W 0 r1, sendToService W 1 r2]\<rparr>" r3 B W]
      l3 assms(2) by simp
  have "foldl (append_flush W B) initial recs =
      \<lparr>messages = r3, sends = [sendToService W 0 r1, sendToService W 1 r2]\<rparr>"
    by (subst split) (simp only: foldl_append s1 s2 s3)
  then show ?thesis by (simp only: r1_def r2_def r3_def)
qed

lemma offer_flush:
  assumes "snd (Parse fl (fst ln) (snd ln))" and "B \<le> int (length (messages st)) + 1"
  shows "offer fl W B st ln =
     st\<lparr>messages := [],
        sends := sends st @ [sendToService W (length (sends st))
                               (messages st @ [fst (Parse fl (fst ln) (snd ln))])]\<rparr>"
  using assms
  by (cases "Parse fl (fst ln) (snd ln)") (simp add: offer_def append_flush_def Let_def)

lemma offer_any_world:
  assumes "messages st = messages st'" and "shipped st = shipped st'"
  shows "messages (offer fl W B st ln) = messages (offer fl W' B st' ln) \<and>
         shipped (offer fl W B st ln) = shipped (offer fl W' B st' ln)"
proof -
  obtain parsed ok where p: "Parse fl (fst ln) (snd ln) = (parsed, ok)"
    by (cases "Parse fl (fst ln) (snd ln)")
  show ?thesis
    using assms p
    by (cases ok)
      (simp_all add: offer_def append_flush_def Let_def shipped_def sendToService_def)
qed

lemma readLoop_any_world:
  "messages st = messages st' \<Longrightarrow> shipped st = shipped st' \<Longrightarrow>
     messages (readLoop fl W B st lns) = messages (readLoop fl W' B st' lns) \<and>
     shipped (readLoop fl W B st lns) = shipped (readLoop fl W' B st' lns)"
proof (induction lns arbitrary: st st')
  case Nil
  then show ?case by simp
next
  case (Cons ln lns)
  from offer_any_world [OF Cons.prems, of fl W B ln W']
  show ?case by (simp add: Cons.IH)
qed

subsection \<open>The batch forwarder\<close>

text \<open>
  Claim C5. With a batch size of at least 1, lines with exactly that many accepted
  records cause exactly one call of \<^verbatim>\<open>sendToService\<close>: its payload holds one event per
  record, the events carry exactly those records in arrival order, each with the time
  stamp of its record; the slice is empty once the offer that reached the size has
  returned, nothing was sent while fewer records had arrived, and the end of the stream
  sends nothing more (in a run whose \<^verbatim>\<open>make\<close> succeeded).
\<close>

theorem exact_batch_one_flush:
  assumes "1 \<le> B" and "int (length (accepted fl lns)) = B"
  shows "messages (readLoop fl W B initial lns) = [] \<and>
         shipped (readLoop fl W B initial lns) = [map eventOf (accepted fl lns)] \<and>
         carried (readLoop fl W B initial lns) = [accepted fl lns] \<and>
         map (map e_ts) (shipped (readLoop fl W B initial lns)) =
           [map Timestamp (accepted fl lns)] \<and>
         length (accepted fl lns) = nat B \<and>
         (makeslice memLimit B = None \<longrightarrow>
            runApp fl W memLimit B (Some lns) = Inr (readLoop fl W B initial lns)) \<and>
         (int (length (accepted fl (take n lns))) < B \<longrightarrow>
            shipped (readLoop fl W B initial (take n lns)) = [])"
proof -
  from assms have ne: "accepted fl lns \<noteq> []" by auto
  have "int (length (messages initial) + length (accepted fl lns)) = B"
    using assms(2) by (simp add: initial_def)
  from threshold_reached [OF ne this, of W]
  have full: "readLoop fl W B initial lns =
      \<lparr>messages = [], sends = [sendToService W 0 (accepted fl lns)]\<rparr>"
    unfolding readLoop_accepted by (simp add: initial_def)
  have m: "messages (readLoop fl W B initial lns) = []"
    by (subst full) simp
  have s: "shipped (readLoop fl W B initial lns) = [map eventOf (accepted fl lns)]"
    by (subst full) (simp add: shipped_def sendToService_def Let_def)
  have c: "carried (readLoop fl W B initial lns) = [accepted fl lns]"
    unfolding carried_def s by (simp add: messages_of_events)
  have t: "map (map e_ts) (shipped (readLoop fl W B initial lns)) =
           [map Timestamp (accepted fl lns)]"
    unfolding s by (simp add: stamps_of_events)
  have r: "makeslice memLimit B = None \<longrightarrow>
            runApp fl W memLimit B (Some lns) = Inr (readLoop fl W B initial lns)"
    using m by (simp add: runApp_returns sendRemaining_empty)
  have p: "int (length (accepted fl (take n lns))) < B \<longrightarrow>
            shipped (readLoop fl W B initial (take n lns)) = []"
  proof
    assume "int (length (accepted fl (take n lns))) < B"
    then have "int (length (messages initial) + length (accepted fl (take n lns))) < B"
      by (simp add: initial_def)
    then show "shipped (readLoop fl W B initial (take n lns)) = []"
      unfolding readLoop_accepted by (simp add: under_threshold shipped_simps)
  qed
  from m s c t r p assms(2) show ?thesis by simp
qed

theorem exact_batch_one_flush_witness:
  "(1 :: int) \<le> 2 \<and> int (length (accepted floats0 (take 3 sampleLines))) = 2 \<and>
   makeslice sampleMemLimit 2 = None \<and>
   messages (readLoop floats0 worldDown 2 initial (take 3 sampleLines)) = [] \<and>
   carried (readLoop floats0 worldDown 2 initial (take 3 sampleLines)) =
     [[fst (Parse floats0 0 sampleLine), fst (Parse floats0 2 sampleLine)]] \<and>
   map (map e_ts) (shipped (readLoop floats0 worldDown 2 initial (take 3 sampleLines))) =
     [[''0'', ''2'']] \<and>
   runApp floats0 worldDown sampleMemLimit 2 (Some (take 3 sampleLines)) =
     Inr (readLoop floats0 worldDown 2 initial (take 3 sampleLines)) \<and>
   shipped (readLoop floats0 worldDown 2 initial (take 1 (take 3 sampleLines))) = []"
  using exact_batch_one_flush [of 2 floats0 "take 3 sampleLines" worldDown sampleMemLimit 1]
  by (simp add: sample_accepted_lines sample_makeslice Timestamp_Parse sample_stamps
      e_ts_eventOf)

text \<open>
  Claim C6. In every run the slice holds at most \<^verbatim>\<open>BATCH_SIZE\<close> records whenever an offer
  has returned: after every prefix of the lines, and across each single offer. An offer
  whose record brings the length to the batch size sends and clears before it returns.
\<close>

theorem buffer_bounded:
  assumes "0 \<le> B"
  shows "int (length (messages (readLoop fl W B initial (take n lns)))) \<le> B \<and>
    (int (length (messages st)) \<le> B \<longrightarrow>
       int (length (messages (offer fl W B st ln))) \<le> B) \<and>
    (snd (Parse fl (fst ln) (snd ln)) \<and> B \<le> int (length (messages st)) + 1 \<longrightarrow>
       messages (offer fl W B st ln) = [] \<and>
       length (sends (offer fl W B st ln)) = Suc (length (sends st)))"
proof -
  have a: "int (length (messages (readLoop fl W B initial (take n lns)))) \<le> B"
    using assms by (intro readLoop_bounded) (simp_all add: initial_def)
  have b: "int (length (messages st)) \<le> B \<longrightarrow>
       int (length (messages (offer fl W B st ln))) \<le> B"
    using assms by (simp add: offer_bounded)
  have c: "snd (Parse fl (fst ln) (snd ln)) \<and> B \<le> int (length (messages st)) + 1 \<longrightarrow>
       messages (offer fl W B st ln) = [] \<and>
       length (sends (offer fl W B st ln)) = Suc (length (sends st))"
    by (cases "Parse fl (fst ln) (snd ln)") (simp add: offer_def append_flush_def Let_def)
  from a b c show ?thesis by blast
qed

theorem buffer_bounded_witness:
  "(0 :: int) \<le> 2 \<and>
   int (length (messages (readLoop floats0 worldOk 2 initial (take 1 sampleLines)))) \<le> 2 \<and>
   snd (Parse floats0 2 sampleLine) \<and>
   messages (offer floats0 worldOk 2
     \<lparr>messages = [fst (Parse floats0 0 sampleLine)], sends = []\<rparr> (2, sampleLine)) = [] \<and>
   length (sends (offer floats0 worldOk 2
     \<lparr>messages = [fst (Parse floats0 0 sampleLine)], sends = []\<rparr> (2, sampleLine))) = 1"
  using buffer_bounded [of 2 floats0 worldOk 1 sampleLines
      "\<lparr>messages = [fst (Parse floats0 0 sampleLine)], sends = []\<rparr>" "(2, sampleLine)"]
  by (simp add: sample_accepted)

text \<open>
  Claim C7, as amended. With a batch size of at least 2, one record fewer than the batch
  size and then the end of the stream give no call during the loop and exactly one at
  the end, carrying those records. Twice the batch size and \<open>k\<close> more records,
  \<open>0 < k < BATCH_SIZE\<close>, give exactly two calls during the loop, each carrying a full
  batch, and a third at the end carrying the last \<open>k\<close> records; the three payloads put
  together carry the records in arrival order. When the stream ends with an empty slice
  nothing is sent at the end. What is said of \<^verbatim>\<open>runApp\<close> holds of a run whose \<^verbatim>\<open>make\<close>
  succeeded.
\<close>

theorem flush_counting:
  assumes "recs = accepted fl lns" and "st = readLoop fl W B initial lns"
  shows
   "(2 \<le> B \<and> int (length recs) = B - 1 \<longrightarrow>
       shipped st = [] \<and>
       (makeslice memLimit B = None \<longrightarrow>
          runApp fl W memLimit B (Some lns) = Inr (sendRemaining W st)) \<and>
       shipped (sendRemaining W st) = [map eventOf recs] \<and>
       carried (sendRemaining W st) = [recs]) \<and>
    (0 < k \<and> int k < B \<and> int (length recs) = 2 * B + int k \<longrightarrow>
       shipped st = [map eventOf (take (nat B) recs),
                     map eventOf (take (nat B) (drop (nat B) recs))] \<and>
       carried st = [take (nat B) recs, take (nat B) (drop (nat B) recs)] \<and>
       length (take (nat B) recs) = nat B \<and>
       length (take (nat B) (drop (nat B) recs)) = nat B \<and>
       (makeslice memLimit B = None \<longrightarrow>
          runApp fl W memLimit B (Some lns) = Inr (sendRemaining W st)) \<and>
       shipped (sendRemaining W st) = shipped st @ [map eventOf (drop (2 * nat B) recs)] \<and>
       carried (sendRemaining W st) = carried st @ [drop (2 * nat B) recs] \<and>
       length (drop (2 * nat B) recs) = k \<and>
       concat (carried (sendRemaining W st)) = recs) \<and>
    (messages st = [] \<longrightarrow>
       sendRemaining W st = st \<and>
       (makeslice memLimit B = None \<longrightarrow> runApp fl W memLimit B (Some lns) = Inr st))"
proof -
  have st: "st = foldl (append_flush W B) initial recs"
    by (simp add: assms readLoop_accepted)
  have a: "shipped st = [] \<and>
       (makeslice memLimit B = None \<longrightarrow>
          runApp fl W memLimit B (Some lns) = Inr (sendRemaining W st)) \<and>
       shipped (sendRemaining W st) = [map eventOf recs] \<and>
       carried (sendRemaining W st) = [recs]"
    if h: "2 \<le> B" "int (length recs) = B - 1"
  proof -
    from h have ne: "recs \<noteq> []" by auto
    have "int (length (messages initial) + length recs) < B"
      using h by (simp add: initial_def)
    then have e: "st = initial\<lparr>messages := messages initial @ recs\<rparr>"
      unfolding st by (rule under_threshold)
    then have m: "messages st = recs" and s: "shipped st = []"
      by (simp_all add: initial_def shipped_def)
    from m ne have f: "shipped (sendRemaining W st) = shipped st @ [map eventOf recs]"
      by (simp add: shipped_sendRemaining)
    then have c: "carried (sendRemaining W st) = [recs]"
      unfolding carried_def by (simp add: s messages_of_events)
    from s f c show ?thesis
      by (simp add: assms(2) runApp_returns)
  qed
  have b: "shipped st = [map eventOf (take (nat B) recs),
                     map eventOf (take (nat B) (drop (nat B) recs))] \<and>
       carried st = [take (nat B) recs, take (nat B) (drop (nat B) recs)] \<and>
       length (take (nat B) recs) = nat B \<and>
       length (take (nat B) (drop (nat B) recs)) = nat B \<and>
       (makeslice memLimit B = None \<longrightarrow>
          runApp fl W memLimit B (Some lns) = Inr (sendRemaining W st)) \<and>
       shipped (sendRemaining W st) = shipped st @ [map eventOf (drop (2 * nat B) recs)] \<and>
       carried (sendRemaining W st) = carried st @ [drop (2 * nat B) recs] \<and>
       length (drop (2 * nat B) recs) = k \<and>
       concat (carried (sendRemaining W st)) = recs"
    if h: "0 < k" "int k < B" "int (length recs) = 2 * B + int k"
  proof -
    have e: "st = \<lparr>messages = drop (2 * nat B) recs,
      sends = [sendToService W 0 (take (nat B) recs),
               sendToService W 1 (take (nat B) (drop (nat B) recs))]\<rparr>"
      unfolding st using h by (rule two_batches_and_rest)
    have len: "length recs = 2 * nat B + k" using h by linarith
    then have l: "length (drop (2 * nat B) recs) = k" by simp
    from len have l1: "length (take (nat B) recs) = nat B"
      and l2: "length (take (nat B) (drop (nat B) recs)) = nat B" by simp_all
    with h(1) l have ne: "messages st \<noteq> []" by (subst e) auto
    have s: "shipped st = [map eventOf (take (nat B) recs),
                     map eventOf (take (nat B) (drop (nat B) recs))]"
      by (subst e) (simp add: shipped_def sendToService_def Let_def)
    have c: "carried st = [take (nat B) recs, take (nat B) (drop (nat B) recs)]"
      unfolding carried_def s by (simp add: messages_of_events)
    have m: "messages st = drop (2 * nat B) recs" by (subst e) simp
    have r: "makeslice memLimit B = None \<longrightarrow>
        runApp fl W memLimit B (Some lns) = Inr (sendRemaining W st)"
      by (simp add: assms(2) runApp_returns)
    have f: "shipped (sendRemaining W st) =
        shipped st @ [map eventOf (drop (2 * nat B) recs)]"
      using shipped_sendRemaining [OF ne, of W] m by simp
    then have cf: "carried (sendRemaining W st) = carried st @ [drop (2 * nat B) recs]"
      unfolding carried_def by (simp add: messages_of_events)
    have "concat (carried (sendRemaining W st)) = recs"
      unfolding cf c using take_take_drop [of "nat B" recs] by simp
    with s c l1 l2 r f cf l show ?thesis by simp
  qed
  have c: "messages st = [] \<longrightarrow>
       sendRemaining W st = st \<and>
       (makeslice memLimit B = None \<longrightarrow> runApp fl W memLimit B (Some lns) = Inr st)"
    by (simp add: assms(2) runApp_returns sendRemaining_empty)
  from a b c show ?thesis by blast
qed

theorem flush_counting_witness:
  "int (length (accepted floats0 (take 1 sampleLines))) = 2 - 1 \<and>
   shipped (readLoop floats0 worldOk 2 initial (take 1 sampleLines)) = [] \<and>
   carried (sendRemaining worldOk (readLoop floats0 worldOk 2 initial (take 1 sampleLines))) =
     [[fst (Parse floats0 0 sampleLine)]] \<and>
   int (length (accepted floats0 sampleLines)) = 2 * 2 + int 1 \<and>
   carried (readLoop floats0 worldOk 2 initial sampleLines) =
     [[fst (Parse floats0 0 sampleLine), fst (Parse floats0 2 sampleLine)],
      [fst (Parse floats0 3 sampleLine), fst (Parse floats0 4 sampleLine)]] \<and>
   carried (sendRemaining worldOk (readLoop floats0 worldOk 2 initial sampleLines)) =
     [[fst (Parse floats0 0 sampleLine), fst (Parse floats0 2 sampleLine)],
      [fst (Parse floats0 3 sampleLine), fst (Parse floats0 4 sampleLine)],
      [fst (Parse floats0 5 sampleLine)]] \<and>
   map (map Timestamp)
     (carried (sendRemaining worldOk (readLoop floats0 worldOk 2 initial sampleLines))) =
     [[''0'', ''2''], [''3'', ''4''], [''5'']] \<and>
   makeslice sampleMemLimit 2 = None \<and>
   runApp floats0 worldOk sampleMemLimit 2 (Some sampleLines) =
     Inr (sendRemaining worldOk (readLoop floats0 worldOk 2 initial sampleLines)) \<and>
   messages (readLoop floats0 worldOk 2 initial (take 3 sampleLines)) = [] \<and>
   runApp floats0 worldOk sampleMemLimit 2 (Some (take 3 sampleLines)) =
     Inr (readLoop floats0 worldOk 2 initial (take 3 sampleLines))"
proof -
  have "accepted floats0 (take 3 sampleLines) \<noteq> []"
    "int (length (messages initial) + length (accepted floats0 (take 3 sampleLines))) = 2"
    by (simp_all add: sample_accepted_lines initial_def)
  from threshold_reached [OF this, of worldOk]
  have e: "messages (readLoop floats0 worldOk 2 initial (take 3 sampleLines)) = []"
    by (simp add: readLoop_accepted)
  show ?thesis
    using flush_counting [OF refl refl, of 2 floats0 "take 1 sampleLines" worldOk
        sampleMemLimit 1]
      flush_counting [OF refl refl, of 2 floats0 sampleLines worldOk sampleMemLimit 1]
      flush_counting [OF refl refl, of 2 floats0 "take 3 sampleLines" worldOk
        sampleMemLimit 1] e
    by (simp add: sample_accepted_lines sample_makeslice Timestamp_Parse sample_stamps
        e_ts_eventOf)
qed

text \<open>
  Claim C7 as stated fails at the batch size 1: one record fewer is no record, and the
  run makes no call at all, not one.
\<close>

theorem flush_counting_counterexample:
  "int (length (accepted floats0 [])) = 1 - 1 \<and> makeslice sampleMemLimit 1 = None \<and>
   runApp floats0 worldOk sampleMemLimit 1 (Some []) = Inr \<lparr>messages = [], sends = []\<rparr>"
  by (simp add: accepted_Nil runApp_def sendRemaining_def initial_def sample_makeslice)

text \<open>
  Claim C8. A send made in the loop on reaching the batch size leaves the slice empty
  whatever \<^verbatim>\<open>sendToService\<close> returns, and the next accepted record starts a new batch.
  No outcome of the sink ends the run fatally: \<^verbatim>\<open>runApp\<close> ends fatally exactly when the
  connection fails or \<^verbatim>\<open>make\<close> fails, both before the first line is read, and returns
  otherwise. The slice and the events sent are the same for every behaviour of the
  sink, and over the whole run the payloads carry every accepted record once, in arrival
  order: no batch is kept back or sent again.
\<close>

theorem flush_drops_batch:
  assumes "snd (Parse fl (fst ln) (snd ln))" and "B \<le> int (length (messages st)) + 1"
  shows "messages (offer fl W B st ln) = [] \<and>
    sends (offer fl W B st ln) =
      sends st @ [sendToService W (length (sends st))
                    (messages st @ [fst (Parse fl (fst ln) (snd ln))])] \<and>
    (snd (Parse fl (fst ln') (snd ln')) \<and> 1 < B \<longrightarrow>
       messages (offer fl W B (offer fl W B st ln) ln') = [fst (Parse fl (fst ln') (snd ln'))]) \<and>
    (isl (runApp fl W memLimit B conn) \<longleftrightarrow>
       conn = None \<or> makeslice memLimit B \<noteq> None) \<and>
    (makeslice memLimit B = None \<longrightarrow>
       runApp fl W memLimit B (Some lns) =
         Inr (sendRemaining W (readLoop fl W B initial lns))) \<and>
    messages (readLoop fl W B initial lns) = messages (readLoop fl W' B initial lns) \<and>
    shipped (readLoop fl W B initial lns) = shipped (readLoop fl W' B initial lns) \<and>
    concat (carried (sendRemaining W (readLoop fl W B initial lns))) = accepted fl lns"
proof -
  have e: "offer fl W B st ln =
     st\<lparr>messages := [],
        sends := sends st @ [sendToService W (length (sends st))
                               (messages st @ [fst (Parse fl (fst ln) (snd ln))])]\<rparr>"
    using assms by (rule offer_flush)
  have a: "messages (offer fl W B st ln) = []" by (subst e) simp
  have b: "sends (offer fl W B st ln) =
      sends st @ [sendToService W (length (sends st))
                    (messages st @ [fst (Parse fl (fst ln) (snd ln))])]"
    by (subst e) simp
  have c: "snd (Parse fl (fst ln') (snd ln')) \<and> 1 < B \<longrightarrow>
       messages (offer fl W B (offer fl W B st ln) ln') = [fst (Parse fl (fst ln') (snd ln'))]"
    using a
    by (cases "Parse fl (fst ln') (snd ln')") (simp add: offer_def append_flush_def Let_def)
  have d: "isl (runApp fl W memLimit B conn) \<longleftrightarrow>
       conn = None \<or> makeslice memLimit B \<noteq> None"
    by (rule runApp_fatal)
  have d': "makeslice memLimit B = None \<longrightarrow>
       runApp fl W memLimit B (Some lns) =
         Inr (sendRemaining W (readLoop fl W B initial lns))"
    by (simp add: runApp_returns)
  have f: "messages (readLoop fl W B initial lns) = messages (readLoop fl W' B initial lns) \<and>
    shipped (readLoop fl W B initial lns) = shipped (readLoop fl W' B initial lns)"
    by (rule readLoop_any_world) simp_all
  have "concat (carried (readLoop fl W B initial lns)) @ messages (readLoop fl W B initial lns) =
      concat (carried initial) @ messages initial @ accepted fl lns"
    unfolding readLoop_accepted by (rule carried_fold)
  moreover have "concat (carried initial) = []" by (simp add: carried_simps)
  moreover have "messages initial = []" by (simp add: initial_def)
  ultimately have g: "concat (carried (sendRemaining W (readLoop fl W B initial lns))) =
      accepted fl lns"
    by (simp add: carried_sendRemaining)
  from a b c d d' f g show ?thesis by blast
qed

theorem flush_drops_batch_witness:
  "snd (Parse floats0 2 sampleLine) \<and>
   (2 :: int) \<le> int (length [fst (Parse floats0 0 sampleLine)]) + 1 \<and>
   snd (sendToService worldDown 0
          [fst (Parse floats0 0 sampleLine), fst (Parse floats0 2 sampleLine)]) =
     Some ''connection refused'' \<and>
   offer floats0 worldDown 2 \<lparr>messages = [fst (Parse floats0 0 sampleLine)], sends = []\<rparr>
       (2, sampleLine) =
     \<lparr>messages = [],
      sends = [sendToService worldDown 0
                 [fst (Parse floats0 0 sampleLine), fst (Parse floats0 2 sampleLine)]]\<rparr> \<and>
   messages (offer floats0 worldDown 2
       (offer floats0 worldDown 2 \<lparr>messages = [fst (Parse floats0 0 sampleLine)], sends = []\<rparr>
          (2, sampleLine)) (3, sampleLine)) = [fst (Parse floats0 3 sampleLine)] \<and>
   makeslice sampleMemLimit 2 = None \<and>
   runApp floats0 worldDown sampleMemLimit 2 (Some sampleLines) =
     Inr (sendRemaining worldDown (readLoop floats0 worldDown 2 initial sampleLines)) \<and>
   shipped (readLoop floats0 worldDown 2 initial sampleLines) =
     shipped (readLoop floats0 worldOk 2 initial sampleLines) \<and>
   concat (carried (sendRemaining worldDown (readLoop floats0 worldDown 2 initial sampleLines))) =
     [fst (Parse floats0 0 sampleLine), fst (Parse floats0 2 sampleLine),
      fst (Parse floats0 3 sampleLine), fst (Parse floats0 4 sampleLine),
      fst (Parse floats0 5 sampleLine)]"
proof -
  have s: "snd (sendToService worldDown 0
          [fst (Parse floats0 0 sampleLine), fst (Parse floats0 2 sampleLine)]) =
     Some ''connection refused''"
    by (simp add: sendToService_def worldDown_def Let_def)
  show ?thesis
    using flush_drops_batch [of floats0 "(2, sampleLine)" 2
        "\<lparr>messages = [fst (Parse floats0 0 sampleLine)], sends = []\<rparr>" worldDown
        "(3, sampleLine)" sampleMemLimit "Some sampleLines" sampleLines worldOk] s
    by (simp add: sample_accepted sample_accepted_lines sample_makeslice)
qed

end
